theory Spec2Isabelle
  imports Main "HOL-Library.Word"
begin

section \<open>The Mantr client (client.go)\<close>

text \<open>
  A shallow embedding of \<^verbatim>\<open>NewClient\<close>, \<^verbatim>\<open>Walk\<close> and \<^verbatim>\<open>WithBaseURL\<close>.
  Go strings are byte sequences, so \<open>string\<close> (a list of bytes) with \<open>length\<close> for
  \<^verbatim>\<open>len\<close> and \<open>take\<close> for a prefix slice. Go's \<^verbatim>\<open>int\<close> is modelled by \<open>int\<close>: the code
  compares and prints integers and never computes with them. Pointers are taken to be
  non-nil: the functions are applied to the value a pointer refers to and return the
  value it refers to afterwards.
\<close>

subsection \<open>Error values\<close>

text \<open>
  Go error values by the way they are built. \<^verbatim>\<open>errors.New\<close> and \<^verbatim>\<open>fmt.Errorf\<close> without
  \<^verbatim>\<open>%w\<close> make an \<^verbatim>\<open>*errors.errorString\<close>, a struct whose only field is the message.
  \<^verbatim>\<open>fmt.Errorf\<close> with one \<^verbatim>\<open>%w\<close> makes a \<^verbatim>\<open>*fmt.wrapError\<close>: the message and the wrapped
  error. The three package variables are compared by identity, so each is a constructor
  of its own. \<open>LibError\<close> is an error made by net/http, net/url or encoding/json: its
  message and the numeric fields that value exposes.
\<close>

datatype go_error =
    ErrAuthentication
  | ErrInsufficientCredits
  | ErrRateLimit
  | ErrorString string
  | WrapError string go_error
  | LibError string "int list"

fun Error :: "go_error \<Rightarrow> string" where
  "Error ErrAuthentication = ''mantr: authentication failed - invalid API key''"
| "Error ErrInsufficientCredits = ''mantr: insufficient credits''"
| "Error ErrRateLimit = ''mantr: rate limit exceeded''"
| "Error (ErrorString s) = s"
| "Error (WrapError msg e) = msg"
| "Error (LibError msg ns) = msg"

text \<open>
  The numeric fields a caller can reach in an error value, by a type assertion on the
  value or on the errors it wraps. An errorString has none.
\<close>

fun numeric_fields :: "go_error \<Rightarrow> int list" where
  "numeric_fields ErrAuthentication = []"
| "numeric_fields ErrInsufficientCredits = []"
| "numeric_fields ErrRateLimit = []"
| "numeric_fields (ErrorString s) = []"
| "numeric_fields (WrapError msg e) = numeric_fields e"
| "numeric_fields (LibError msg ns) = ns"

text \<open>The verb \<^verbatim>\<open>%d\<close> of fmt: an integer in decimal, with a minus sign when negative.\<close>

definition digit_char :: "nat \<Rightarrow> char" where
  "digit_char d = ''0123456789'' ! d"

fun show_nat :: "nat \<Rightarrow> string" where
  "show_nat n = (if n < 10 then [digit_char n] else show_nat (n div 10) @ [digit_char (n mod 10)])"

declare show_nat.simps [simp del]

definition show_int :: "int \<Rightarrow> string" where
  "show_int i = (if i < 0 then CHR ''-'' # show_nat (nat (- i)) else show_nat (nat i))"

subsection \<open>Data\<close>

text \<open>A Go slice is nil or a sequence; both the nil slice and the empty one have length 0.\<close>

datatype 'a slice = NilSlice | Slice "'a list"

fun len :: "'a slice \<Rightarrow> nat" where
  "len NilSlice = 0"
| "len (Slice xs) = length xs"

text \<open>\<^verbatim>\<open>http.Client\<close>: the timeout, a \<^verbatim>\<open>time.Duration\<close> in nanoseconds.\<close>

record http_Client =
  Timeout :: int

definition Second :: int where
  "Second = 1000000000"

record Client =
  apiKey :: string
  baseURL :: string
  httpClient :: http_Client

record WalkRequest =
  Phonemes :: "string slice"
  Pod :: string
  Depth :: int
  Limit :: int

text \<open>
  A \<^verbatim>\<open>float64\<close> is kept as the 64 bits of its IEEE 754 encoding: the client stores a
  score and hands it on, and never computes with it.
\<close>

type_synonym float64 = "64 word"

record PathResult =
  Nodes :: "string slice"
  Score :: float64
  PathDepth :: int

record WalkResponse =
  Paths :: "PathResult slice"
  LatencyUS :: int
  CreditsUsed :: int

text \<open>
  A JSON value. \<^verbatim>\<open>json.Marshal\<close> is modelled up to the text encoding of encoding/json:
  an object is the list of its members in the order they are written.
\<close>

datatype json =
    JNull
  | JString string
  | JInt int
  | JArray "json list"
  | JObject "(string \<times> json) list"

fun json_field :: "string \<Rightarrow> json \<Rightarrow> json option" where
  "json_field k (JObject ms) = map_of ms k"
| "json_field k _ = None"

text \<open>\<^verbatim>\<open>http.Request\<close> and \<^verbatim>\<open>http.Response\<close>, the fields the client touches.\<close>

record http_Request =
  Method :: string
  URL :: string
  Header :: "string \<rightharpoonup> string list"
  Body :: json

record http_Response =
  StatusCode :: int
  RespBody :: string

text \<open>
  The input and output the process performs, in order: a request handed to the
  transport, the release of a response body.
\<close>

datatype io_event = HttpDo http_Request | BodyClose

subsection \<open>Construction\<close>

text \<open>
  An \<^verbatim>\<open>Option\<close> is a Go function on a pointer to the client: it may change the client
  and it may perform input and output of its own.
\<close>

type_synonym Option = "Client \<times> io_event list \<Rightarrow> Client \<times> io_event list"

definition WithBaseURL :: "string \<Rightarrow> Option" where
  "WithBaseURL url = (\<lambda>(c, io). (c\<lparr>baseURL := url\<rparr>, io))"

text \<open>The loop \<^verbatim>\<open>for _, opt := range options { opt(client) }\<close>.\<close>

fun apply_options :: "Option list \<Rightarrow> Client \<times> io_event list \<Rightarrow> Client \<times> io_event list" where
  "apply_options [] s = s"
| "apply_options (opt # options) s = apply_options options (opt s)"

definition NewClient ::
  "string \<Rightarrow> Option list \<Rightarrow> io_event list \<Rightarrow> (Client option \<times> go_error option) \<times> io_event list" where
  "NewClient key options io =
     (if length key < 4 \<or> take 4 key \<noteq> ''vak_''
      then ((None, Some (ErrorString (''invalid API key format, must start with '' @ [CHR 0x27] @ ''vak_'' @ [CHR 0x27]))), io)
      else
        let client = \<lparr>apiKey = key, baseURL = ''https://api.mantr.net'',
                      httpClient = \<lparr>Timeout = 30 * Second\<rparr>\<rparr>;
            (client', io') = apply_options options (client, io)
        in ((Some client', None), io'))"

subsection \<open>Walk\<close>

text \<open>
  What the standard library and the network decide: whether net/url accepts the address
  given to \<^verbatim>\<open>http.NewRequest\<close>, what the transport answers to a request sent with a
  given \<^verbatim>\<open>http.Client\<close>, and what the JSON decoder makes of a response body.
\<close>

record env =
  url_error :: "string \<Rightarrow> go_error option"
  round_trip :: "http_Client \<Rightarrow> http_Request \<Rightarrow> go_error + http_Response"
  json_decode :: "string \<Rightarrow> go_error + WalkResponse"

text \<open>The memory and the input and output a call of \<^verbatim>\<open>Walk\<close> can touch.\<close>

record store =
  client :: Client
  request :: WalkRequest
  net :: "io_event list"

text \<open>The block under \<^verbatim>\<open>// Set defaults\<close>, on the request the caller passed.\<close>

definition set_defaults :: "store \<Rightarrow> store" where
  "set_defaults s =
     (let s1 = (if Depth (request s) = 0 then s\<lparr>request := (request s)\<lparr>Depth := 3\<rparr>\<rparr> else s);
          s2 = (if Limit (request s1) = 0 then s1\<lparr>request := (request s1)\<lparr>Limit := 100\<rparr>\<rparr> else s1)
      in s2)"

text \<open>
  \<^verbatim>\<open>json.Marshal\<close> on a \<^verbatim>\<open>WalkRequest\<close>, by its struct tags: \<^verbatim>\<open>phonemes\<close> is always
  written (a nil slice as \<^verbatim>\<open>null\<close>), the other three carry \<^verbatim>\<open>omitempty\<close>. It has no
  failing case on this type.
\<close>

definition json_Marshal :: "WalkRequest \<Rightarrow> go_error + json" where
  "json_Marshal r =
     Inr (JObject
       ([(''phonemes'', case Phonemes r of NilSlice \<Rightarrow> JNull | Slice xs \<Rightarrow> JArray (map JString xs))]
        @ (if Pod r = [] then [] else [(''pod'', JString (Pod r))])
        @ (if Depth r = 0 then [] else [(''depth'', JInt (Depth r))])
        @ (if Limit r = 0 then [] else [(''limit'', JInt (Limit r))])))"

definition http_NewRequest :: "env \<Rightarrow> string \<Rightarrow> string \<Rightarrow> json \<Rightarrow> go_error + http_Request" where
  "http_NewRequest e m u b =
     (case url_error e u of
        Some err \<Rightarrow> Inl err
      | None \<Rightarrow> Inr \<lparr>Method = m, URL = u, Header = Map.empty, Body = b\<rparr>)"

definition Header_Set :: "string \<Rightarrow> string \<Rightarrow> http_Request \<Rightarrow> http_Request" where
  "Header_Set k v r = r\<lparr>Header := (Header r)(k \<mapsto> [v])\<rparr>"

text \<open>The chain of status tests and the decoding, once a response has arrived.\<close>

definition map_response :: "env \<Rightarrow> http_Response \<Rightarrow> WalkResponse option \<times> go_error option" where
  "map_response e resp =
     (if StatusCode resp = 401 then (None, Some ErrAuthentication)
      else if StatusCode resp = 402 then (None, Some ErrInsufficientCredits)
      else if StatusCode resp = 429 then (None, Some ErrRateLimit)
      else if StatusCode resp \<noteq> 200
        then (None, Some (ErrorString (''API error: status '' @ show_int (StatusCode resp))))
      else
        (case json_decode e (RespBody resp) of
           Inl err \<Rightarrow> (None, Some (WrapError (''failed to decode response: '' @ Error err) err))
         | Inr walkResp \<Rightarrow> (Some walkResp, None)))"

definition Walk :: "env \<Rightarrow> store \<Rightarrow> (WalkResponse option \<times> go_error option) \<times> store" where
  "Walk e s0 =
     (if len (Phonemes (request s0)) = 0
      then ((None, Some (ErrorString ''phonemes cannot be empty'')), s0)
      else
        let s = set_defaults s0 in
        case json_Marshal (request s) of
          Inl err \<Rightarrow> ((None, Some (WrapError (''failed to marshal request: '' @ Error err) err)), s)
        | Inr body \<Rightarrow>
            (case http_NewRequest e ''POST'' (baseURL (client s) @ ''/v1/walk'') body of
               Inl err \<Rightarrow> ((None, Some err), s)
             | Inr httpReq0 \<Rightarrow>
                 let httpReq =
                       Header_Set ''User-Agent'' ''mantr-go/1.0.0''
                         (Header_Set ''Authorization'' (''Bearer '' @ apiKey (client s))
                           (Header_Set ''Content-Type'' ''application/json'' httpReq0));
                     s' = s\<lparr>net := net s @ [HttpDo httpReq]\<rparr>
                 in
                 (case round_trip e (httpClient (client s')) httpReq of
                    Inl err \<Rightarrow> ((None, Some (WrapError (''HTTP request failed: '' @ Error err) err)), s')
                  | Inr resp \<Rightarrow> (map_response e resp, s'\<lparr>net := net s' @ [BodyClose]\<rparr>))))"

text \<open>
  What a call of \<^verbatim>\<open>Walk\<close> puts on the wire: the requests it hands to the transport, read
  off the events the call adds, and the body of the first of them.
\<close>

fun sent :: "io_event list \<Rightarrow> http_Request list" where
  "sent [] = []"
| "sent (HttpDo r # evs) = r # sent evs"
| "sent (BodyClose # evs) = sent evs"

definition requests_of :: "env \<Rightarrow> store \<Rightarrow> http_Request list" where
  "requests_of e s = sent (drop (length (net s)) (net (snd (Walk e s))))"

definition wire_payload :: "env \<Rightarrow> store \<Rightarrow> json option" where
  "wire_payload e s = (case requests_of e s of [] \<Rightarrow> None | r # _ \<Rightarrow> Some (Body r))"

text \<open>
  The request \<^verbatim>\<open>Walk\<close> builds for a store and a marshalled body, as a term of its own:
  \<^verbatim>\<open>http.NewRequest\<close> followed by the three \<^verbatim>\<open>Header.Set\<close> calls.
\<close>

definition walk_httpReq :: "store \<Rightarrow> json \<Rightarrow> http_Request" where
  "walk_httpReq s body =
     Header_Set ''User-Agent'' ''mantr-go/1.0.0''
       (Header_Set ''Authorization'' (''Bearer '' @ apiKey (client s))
         (Header_Set ''Content-Type'' ''application/json''
           \<lparr>Method = ''POST'', URL = baseURL (client s) @ ''/v1/walk'', Header = Map.empty, Body = body\<rparr>))"

subsection \<open>A simulated server and a sample call\<close>

text \<open>
  An environment for concrete runs: every address parses, the server answers every
  request with the given status and body, and the decoder is the JSON decoder on the two
  bodies used below: \<^verbatim>\<open>{}\<close> decodes to the zero \<^verbatim>\<open>WalkResponse\<close>, the empty body fails
  with \<^verbatim>\<open>EOF\<close>.
\<close>

definition sim_server :: "int \<Rightarrow> string \<Rightarrow> env" where
  "sim_server code body =
     \<lparr>url_error = (\<lambda>u. None),
      round_trip = (\<lambda>hc r. Inr \<lparr>StatusCode = code, RespBody = body\<rparr>),
      json_decode = (\<lambda>b. if b = ''{}'' then Inr \<lparr>Paths = NilSlice, LatencyUS = 0, CreditsUsed = 0\<rparr>
                          else Inl (LibError ''EOF'' []))\<rparr>"

definition sample_store :: "string slice \<Rightarrow> int \<Rightarrow> int \<Rightarrow> store" where
  "sample_store ps d l =
     \<lparr>client = \<lparr>apiKey = ''vak_live_1'', baseURL = ''https://api.mantr.net'',
                 httpClient = \<lparr>Timeout = 30 * Second\<rparr>\<rparr>,
      request = \<lparr>Phonemes = ps, Pod = [], Depth = d, Limit = l\<rparr>,
      net = []\<rparr>"

subsection \<open>Reading an error value\<close>

text \<open>
  What a caller can do with an error to learn a status code. \<open>carries_status\<close>: the
  returned error has a numeric field holding the code. \<open>read_int\<close>: parsing a decimal
  numeral back, as a caller would have to do with the tail of a message.
\<close>

definition carries_status :: "go_error option \<Rightarrow> int \<Rightarrow> bool" where
  "carries_status err n = (case err of None \<Rightarrow> False | Some e \<Rightarrow> n \<in> set (numeric_fields e))"

definition digit_val :: "char \<Rightarrow> nat" where
  "digit_val c = of_char c - 48"

definition read_nat :: "string \<Rightarrow> nat" where
  "read_nat ds = foldl (\<lambda>n c. 10 * n + digit_val c) 0 ds"

definition read_int :: "string \<Rightarrow> int" where
  "read_int s =
     (if s \<noteq> [] \<and> hd s = CHR ''-'' then - int (read_nat (tl s)) else int (read_nat s))"

section \<open>Properties\<close>

subsection \<open>The cases of Walk\<close>

lemma client_set_defaults: "client (set_defaults s) = client s"
  by (simp add: set_defaults_def Let_def)

lemma net_set_defaults: "net (set_defaults s) = net s"
  by (simp add: set_defaults_def Let_def)

lemma request_set_defaults:
  "request (set_defaults s) =
     (request s)\<lparr>Depth := (if Depth (request s) = 0 then 3 else Depth (request s)),
                 Limit := (if Limit (request s) = 0 then 100 else Limit (request s))\<rparr>"
  by (simp add: set_defaults_def Let_def)

lemma Walk_invalid:
  "len (Phonemes (request s)) = 0 \<Longrightarrow>
     Walk e s = ((None, Some (ErrorString ''phonemes cannot be empty'')), s)"
  by (simp add: Walk_def)

lemma sent_append: "sent (xs @ ys) = sent xs @ sent ys"
  by (induction xs rule: sent.induct) simp_all

lemma Walk_url_error:
  assumes "len (Phonemes (request s)) \<noteq> 0"
    and "json_Marshal (request (set_defaults s)) = Inr b"
    and "url_error e (baseURL (client s) @ ''/v1/walk'') = Some err"
  shows "Walk e s = ((None, Some err), set_defaults s)"
  using assms by (simp add: Walk_def Let_def http_NewRequest_def client_set_defaults)

lemma Walk_transport_error:
  assumes "len (Phonemes (request s)) \<noteq> 0"
    and "json_Marshal (request (set_defaults s)) = Inr b"
    and "url_error e (baseURL (client s) @ ''/v1/walk'') = None"
    and "round_trip e (httpClient (client s)) (walk_httpReq s b) = Inl err"
  shows "Walk e s = ((None, Some (WrapError (''HTTP request failed: '' @ Error err) err)),
                     (set_defaults s)\<lparr>net := net s @ [HttpDo (walk_httpReq s b)]\<rparr>)"
  using assms
  by (simp add: Walk_def Let_def http_NewRequest_def walk_httpReq_def client_set_defaults
      net_set_defaults)

lemma Walk_response:
  assumes "len (Phonemes (request s)) \<noteq> 0"
    and "json_Marshal (request (set_defaults s)) = Inr b"
    and "url_error e (baseURL (client s) @ ''/v1/walk'') = None"
    and "round_trip e (httpClient (client s)) (walk_httpReq s b) = Inr resp"
  shows "Walk e s = (map_response e resp,
                     (set_defaults s)\<lparr>net := net s @ [HttpDo (walk_httpReq s b), BodyClose]\<rparr>)"
  using assms
  by (simp add: Walk_def Let_def http_NewRequest_def walk_httpReq_def client_set_defaults
      net_set_defaults)

lemma json_Marshal_total: "\<exists>b. json_Marshal r = Inr b"
  by (simp add: json_Marshal_def)

lemma requests_of_cases:
  assumes "json_Marshal (request (set_defaults s)) = Inr b"
  shows "requests_of e s =
     (if len (Phonemes (request s)) = 0 then []
      else if url_error e (baseURL (client s) @ ''/v1/walk'') = None then [walk_httpReq s b]
      else [])"
proof (cases "len (Phonemes (request s)) = 0")
  case True
  then show ?thesis by (simp add: requests_of_def Walk_invalid)
next
  case ne: False
  show ?thesis
  proof (cases "url_error e (baseURL (client s) @ ''/v1/walk'')")
    case (Some err)
    with ne assms show ?thesis
      by (simp add: requests_of_def Walk_url_error net_set_defaults)
  next
    case None
    show ?thesis
    proof (cases "round_trip e (httpClient (client s)) (walk_httpReq s b)")
      case (Inl err)
      with ne None assms show ?thesis
        by (simp add: requests_of_def Walk_transport_error)
    next
      case (Inr resp)
      with ne None assms show ?thesis
        by (simp add: requests_of_def Walk_response)
    qed
  qed
qed

lemma snd_Walk_fields:
  "client (snd (Walk e s)) = client s"
  "request (snd (Walk e s)) =
     (if len (Phonemes (request s)) = 0 then request s else request (set_defaults s))"
proof -
  obtain b where b: "json_Marshal (request (set_defaults s)) = Inr b"
    using json_Marshal_total by blast
  have "client (snd (Walk e s)) = client s \<and>
        request (snd (Walk e s)) =
          (if len (Phonemes (request s)) = 0 then request s else request (set_defaults s))"
  proof (cases "len (Phonemes (request s)) = 0")
    case True
    then show ?thesis by (simp add: Walk_invalid)
  next
    case ne: False
    show ?thesis
    proof (cases "url_error e (baseURL (client s) @ ''/v1/walk'')")
      case (Some err)
      with ne b show ?thesis by (simp add: Walk_url_error client_set_defaults)
    next
      case None
      show ?thesis
      proof (cases "round_trip e (httpClient (client s)) (walk_httpReq s b)")
        case (Inl err)
        with ne None b show ?thesis by (simp add: Walk_transport_error client_set_defaults)
      next
        case (Inr resp)
        with ne None b show ?thesis by (simp add: Walk_response client_set_defaults)
      qed
    qed
  qed
  then show "client (snd (Walk e s)) = client s"
    and "request (snd (Walk e s)) =
     (if len (Phonemes (request s)) = 0 then request s else request (set_defaults s))"
    by simp_all
qed

subsection \<open>Construction\<close>

text \<open>
  C1. For every key, \<^verbatim>\<open>NewClient\<close> succeeds (a client and no error) exactly when the key
  has at least 4 bytes and its first 4 bytes are \<^verbatim>\<open>vak_\<close>. Otherwise it returns no client
  and the error whose message names the expected prefix, the options are not run and
  the record of input and output is what it was.
\<close>

theorem NewClient_prefix_check:
  "(snd (fst (NewClient key options io)) = None \<longleftrightarrow> 4 \<le> length key \<and> take 4 key = ''vak_'')
   \<and> (fst (fst (NewClient key options io)) \<noteq> None \<longleftrightarrow> 4 \<le> length key \<and> take 4 key = ''vak_'')
   \<and> (\<not> (4 \<le> length key \<and> take 4 key = ''vak_'') \<longrightarrow>
        NewClient key options io =
          ((None, Some (ErrorString
             (''invalid API key format, must start with '' @ [CHR 0x27] @ ''vak_'' @ [CHR 0x27]))), io))"
  by (auto simp add: NewClient_def Let_def split: prod.splits)

text \<open>C1 at a key with another prefix, and at a key with the prefix.\<close>

theorem NewClient_prefix_check_witness:
  "\<not> (4 \<le> length ''sk_live_123'' \<and> take 4 ''sk_live_123'' = ''vak_'')
   \<and> NewClient ''sk_live_123'' [WithBaseURL ''http://localhost:8080''] [] =
       ((None, Some (ErrorString
          (''invalid API key format, must start with '' @ [CHR 0x27] @ ''vak_'' @ [CHR 0x27]))), [])
   \<and> snd (fst (NewClient ''vak_live_123'' [WithBaseURL ''http://localhost:8080''] [])) = None
   \<and> fst (fst (NewClient ''vak_live_123'' [WithBaseURL ''http://localhost:8080''] [])) \<noteq> None"
  using NewClient_prefix_check [of "''sk_live_123''" "[WithBaseURL ''http://localhost:8080'']" "[]"]
    NewClient_prefix_check [of "''vak_live_123''" "[WithBaseURL ''http://localhost:8080'']" "[]"]
  by simp

subsection \<open>Validation and defaulting\<close>

text \<open>
  C2. For every request whose phoneme slice has length 0, \<^verbatim>\<open>Walk\<close> returns no response
  and the validation error, and the store is what it was: no default has been written
  to the request and nothing has been handed to the transport.
\<close>

theorem Walk_rejects_empty_phonemes:
  "len (Phonemes (request s)) = 0 \<Longrightarrow>
     Walk e s = ((None, Some (ErrorString ''phonemes cannot be empty'')), s)
     \<and> requests_of e s = []"
  by (simp add: Walk_def requests_of_def)

text \<open>C2 at an empty slice.\<close>

theorem Walk_rejects_empty_phonemes_witness:
  "len (Phonemes (request (sample_store (Slice []) 0 0))) = 0
   \<and> Walk (sim_server 200 ''{}'') (sample_store (Slice []) 0 0) =
       ((None, Some (ErrorString ''phonemes cannot be empty'')), sample_store (Slice []) 0 0)
   \<and> Depth (request (snd (Walk (sim_server 200 ''{}'') (sample_store (Slice []) 0 0)))) = 0
   \<and> net (snd (Walk (sim_server 200 ''{}'') (sample_store (Slice []) 0 0))) = []"
  using Walk_rejects_empty_phonemes [of "sample_store (Slice []) 0 0" "sim_server 200 ''{}''"]
  by (simp add: sample_store_def)

lemma Body_walk_httpReq: "Body (walk_httpReq s b) = b"
  by (simp add: walk_httpReq_def Header_Set_def)

lemma json_Marshal_depth_limit:
  "json_Marshal r = Inr b \<Longrightarrow>
     json_field ''depth'' b = (if Depth r = 0 then None else Some (JInt (Depth r))) \<and>
     json_field ''limit'' b = (if Limit r = 0 then None else Some (JInt (Limit r)))"
  by (auto simp add: json_Marshal_def)

text \<open>
  C3. For every request with phonemes whose Depth and Limit are both 0, \<^verbatim>\<open>Walk\<close> leaves
  the caller's request with Depth 3 and Limit 100, and every request it hands to the
  transport has as body the marshalled form of that request, with \<^verbatim>\<open>depth\<close> 3 and
  \<^verbatim>\<open>limit\<close> 100. When the address parses, exactly one request is handed over.
\<close>

theorem Walk_defaults_zero_fields:
  assumes "len (Phonemes (request s)) \<noteq> 0"
    and "Depth (request s) = 0" and "Limit (request s) = 0"
  shows "request (snd (Walk e s)) = (request s)\<lparr>Depth := 3, Limit := 100\<rparr>
     \<and> (\<forall>r \<in> set (requests_of e s).
           json_Marshal (request (snd (Walk e s))) = Inr (Body r)
           \<and> json_field ''depth'' (Body r) = Some (JInt 3)
           \<and> json_field ''limit'' (Body r) = Some (JInt 100))
     \<and> (url_error e (baseURL (client s) @ ''/v1/walk'') = None \<longrightarrow> length (requests_of e s) = 1)"
proof -
  obtain b where b: "json_Marshal (request (set_defaults s)) = Inr b"
    using json_Marshal_total by blast
  have req: "request (snd (Walk e s)) = (request s)\<lparr>Depth := 3, Limit := 100\<rparr>"
    using assms by (simp add: snd_Walk_fields request_set_defaults)
  have fields: "json_field ''depth'' b = Some (JInt 3) \<and> json_field ''limit'' b = Some (JInt 100)"
    using json_Marshal_depth_limit [OF b] assms by (simp add: request_set_defaults)
  have same: "json_Marshal (request (snd (Walk e s))) = Inr b"
    using assms b by (simp add: snd_Walk_fields)
  show ?thesis
    using req fields same assms(1)
    by (simp add: requests_of_cases [OF b] Body_walk_httpReq)
qed

text \<open>C3 at two phonemes, against a server answering 200.\<close>

theorem Walk_defaults_zero_fields_witness:
  "len (Phonemes (request (sample_store (Slice [''dharma'', ''karma'']) 0 0))) \<noteq> 0
   \<and> request (snd (Walk (sim_server 200 ''{}'') (sample_store (Slice [''dharma'', ''karma'']) 0 0))) =
        \<lparr>Phonemes = Slice [''dharma'', ''karma''], Pod = [], Depth = 3, Limit = 100\<rparr>
   \<and> map (\<lambda>r. (json_field ''depth'' (Body r), json_field ''limit'' (Body r)))
         (requests_of (sim_server 200 ''{}'') (sample_store (Slice [''dharma'', ''karma'']) 0 0)) =
       [(Some (JInt 3), Some (JInt 100))]"
  using Walk_defaults_zero_fields [of "sample_store (Slice [''dharma'', ''karma'']) 0 0" "sim_server 200 ''{}''"]
  by (auto simp add: sample_store_def sim_server_def length_Suc_conv)

text \<open>
  C4. For every request with phonemes whose Depth and Limit are both nonzero, \<^verbatim>\<open>Walk\<close>
  leaves the caller's request as it was, and every request it hands to the transport
  has as body the marshalled form of that request, with \<^verbatim>\<open>depth\<close> and \<^verbatim>\<open>limit\<close> the
  caller's values.
\<close>

theorem Walk_keeps_nonzero_fields:
  assumes "len (Phonemes (request s)) \<noteq> 0"
    and "Depth (request s) \<noteq> 0" and "Limit (request s) \<noteq> 0"
  shows "request (snd (Walk e s)) = request s
     \<and> (\<forall>r \<in> set (requests_of e s).
           json_Marshal (request s) = Inr (Body r)
           \<and> json_field ''depth'' (Body r) = Some (JInt (Depth (request s)))
           \<and> json_field ''limit'' (Body r) = Some (JInt (Limit (request s))))
     \<and> (url_error e (baseURL (client s) @ ''/v1/walk'') = None \<longrightarrow> length (requests_of e s) = 1)"
proof -
  have sd: "request (set_defaults s) = request s"
    using assms by (simp add: request_set_defaults)
  obtain b where b: "json_Marshal (request (set_defaults s)) = Inr b"
    using json_Marshal_total by blast
  have req: "request (snd (Walk e s)) = request s"
    using assms sd by (simp add: snd_Walk_fields)
  have fields: "json_field ''depth'' b = Some (JInt (Depth (request s)))
      \<and> json_field ''limit'' b = Some (JInt (Limit (request s)))"
    using json_Marshal_depth_limit [OF b] assms sd by simp
  show ?thesis
    using req fields b sd assms(1)
    by (simp add: requests_of_cases [OF b] Body_walk_httpReq)
qed

text \<open>C4 at Depth 5 and Limit 10.\<close>

theorem Walk_keeps_nonzero_fields_witness:
  "len (Phonemes (request (sample_store (Slice [''dharma'']) 5 10))) \<noteq> 0
   \<and> request (snd (Walk (sim_server 200 ''{}'') (sample_store (Slice [''dharma'']) 5 10))) =
        \<lparr>Phonemes = Slice [''dharma''], Pod = [], Depth = 5, Limit = 10\<rparr>
   \<and> map (\<lambda>r. (json_field ''depth'' (Body r), json_field ''limit'' (Body r)))
         (requests_of (sim_server 200 ''{}'') (sample_store (Slice [''dharma'']) 5 10)) =
       [(Some (JInt 5), Some (JInt 10))]"
  using Walk_keeps_nonzero_fields [of "sample_store (Slice [''dharma'']) 5 10" "sim_server 200 ''{}''"]
  by (auto simp add: sample_store_def sim_server_def length_Suc_conv)

subsection \<open>The answer of the server\<close>

lemma in_requests_of:
  assumes "r \<in> set (requests_of e s)"
    and "json_Marshal (request (set_defaults s)) = Inr b"
  shows "len (Phonemes (request s)) \<noteq> 0"
    and "url_error e (baseURL (client s) @ ''/v1/walk'') = None"
    and "r = walk_httpReq s b"
  using assms by (simp_all add: requests_of_cases [OF assms(2)] split: if_splits)

lemma fst_Walk_response:
  assumes "r \<in> set (requests_of e s)"
    and "round_trip e (httpClient (client s)) r = Inr resp"
  shows "fst (Walk e s) = map_response e resp"
proof -
  obtain b where b: "json_Marshal (request (set_defaults s)) = Inr b"
    using json_Marshal_total by blast
  note in_requests_of [OF assms(1) b]
  with assms(2) b show ?thesis
    by (simp add: Walk_response)
qed

lemma map_response_error_no_response:
  "snd (map_response e resp) \<noteq> None \<Longrightarrow> fst (map_response e resp) = None"
  by (simp add: map_response_def split: if_splits sum.splits)

lemma Walk_error_no_response:
  "snd (fst (Walk e s)) \<noteq> None \<Longrightarrow> fst (fst (Walk e s)) = None"
proof (cases "len (Phonemes (request s)) = 0")
  case True
  then show ?thesis by (simp add: Walk_invalid)
next
  case ne: False
  assume err: "snd (fst (Walk e s)) \<noteq> None"
  obtain b where b: "json_Marshal (request (set_defaults s)) = Inr b"
    using json_Marshal_total by blast
  show ?thesis
  proof (cases "url_error e (baseURL (client s) @ ''/v1/walk'')")
    case (Some x)
    with ne b show ?thesis by (simp add: Walk_url_error)
  next
    case None
    show ?thesis
    proof (cases "round_trip e (httpClient (client s)) (walk_httpReq s b)")
      case (Inl x)
      with ne None b show ?thesis by (simp add: Walk_transport_error)
    next
      case (Inr resp)
      with ne None b err show ?thesis
        by (simp add: Walk_response map_response_error_no_response)
    qed
  qed
qed

lemma show_int_500: "show_int 500 = ''500''"
  by code_simp

lemma sim_server_requests:
  "len ps \<noteq> 0 \<Longrightarrow> \<exists>r. requests_of (sim_server code body) (sample_store ps d l) = [r]"
proof -
  assume ne: "len ps \<noteq> 0"
  obtain b where b: "json_Marshal (request (set_defaults (sample_store ps d l))) = Inr b"
    using json_Marshal_total by blast
  have "url_error (sim_server code body) (baseURL (client (sample_store ps d l)) @ ''/v1/walk'') = None"
    by (simp add: sim_server_def)
  moreover have "len (Phonemes (request (sample_store ps d l))) \<noteq> 0"
    using ne by (simp add: sample_store_def)
  ultimately show ?thesis
    by (simp add: requests_of_cases [OF b])
qed

text \<open>
  C5. For every response \<^verbatim>\<open>Walk\<close> receives for the request it sent: status 401 gives
  \<^verbatim>\<open>ErrAuthentication\<close>, 402 gives \<^verbatim>\<open>ErrInsufficientCredits\<close>, 429 gives \<^verbatim>\<open>ErrRateLimit\<close>, any
  other status but 200 gives the generic error with the status in its message, and 200
  gives the decoded body, or the decoder's error wrapped when the body does not decode.
  Whenever an error is returned, no response is returned with it.
\<close>

theorem Walk_status_mapping:
  assumes "r \<in> set (requests_of e s)"
    and "round_trip e (httpClient (client s)) r = Inr resp"
  shows "(StatusCode resp = 401 \<longrightarrow> fst (Walk e s) = (None, Some ErrAuthentication))
     \<and> (StatusCode resp = 402 \<longrightarrow> fst (Walk e s) = (None, Some ErrInsufficientCredits))
     \<and> (StatusCode resp = 429 \<longrightarrow> fst (Walk e s) = (None, Some ErrRateLimit))
     \<and> (StatusCode resp \<notin> {200, 401, 402, 429} \<longrightarrow>
          fst (Walk e s) =
            (None, Some (ErrorString (''API error: status '' @ show_int (StatusCode resp)))))
     \<and> (StatusCode resp = 200 \<longrightarrow>
          (\<forall>w. json_decode e (RespBody resp) = Inr w \<longrightarrow> fst (Walk e s) = (Some w, None))
          \<and> (\<forall>err. json_decode e (RespBody resp) = Inl err \<longrightarrow>
                fst (Walk e s) =
                  (None, Some (WrapError (''failed to decode response: '' @ Error err) err))))
     \<and> (snd (fst (Walk e s)) \<noteq> None \<longrightarrow> fst (fst (Walk e s)) = None)"
proof -
  have m: "fst (Walk e s) = map_response e resp"
    using assms by (rule fst_Walk_response)
  have "snd (fst (Walk e s)) \<noteq> None \<longrightarrow> fst (fst (Walk e s)) = None"
    using Walk_error_no_response by blast
  then show ?thesis
    unfolding m by (simp add: map_response_def)
qed

text \<open>C5 against servers answering 401, 402, 429, 500, and 200 with a good and a bad body.\<close>

theorem Walk_status_mapping_witness:
  "fst (Walk (sim_server 401 []) (sample_store (Slice [''dharma'']) 0 0)) = (None, Some ErrAuthentication)
   \<and> fst (Walk (sim_server 402 []) (sample_store (Slice [''dharma'']) 0 0)) = (None, Some ErrInsufficientCredits)
   \<and> fst (Walk (sim_server 429 []) (sample_store (Slice [''dharma'']) 0 0)) = (None, Some ErrRateLimit)
   \<and> fst (Walk (sim_server 500 []) (sample_store (Slice [''dharma'']) 0 0)) =
        (None, Some (ErrorString ''API error: status 500''))
   \<and> fst (Walk (sim_server 200 ''{}'') (sample_store (Slice [''dharma'']) 0 0)) =
        (Some \<lparr>Paths = NilSlice, LatencyUS = 0, CreditsUsed = 0\<rparr>, None)
   \<and> fst (Walk (sim_server 200 []) (sample_store (Slice [''dharma'']) 0 0)) =
        (None, Some (WrapError ''failed to decode response: EOF'' (LibError ''EOF'' [])))"
proof -
  let ?s = "sample_store (Slice [''dharma'']) 0 0"
  have run: "\<And>code body. \<exists>r. r \<in> set (requests_of (sim_server code body) ?s)
      \<and> round_trip (sim_server code body) (httpClient (client ?s)) r =
          Inr \<lparr>StatusCode = code, RespBody = body\<rparr>"
  proof -
    fix code body
    obtain r where "requests_of (sim_server code body) ?s = [r]"
      using sim_server_requests [of "Slice [''dharma'']" code body 0 0] by auto
    then show "\<exists>r. r \<in> set (requests_of (sim_server code body) ?s)
      \<and> round_trip (sim_server code body) (httpClient (client ?s)) r =
          Inr \<lparr>StatusCode = code, RespBody = body\<rparr>"
      by (simp add: sim_server_def)
  qed
  have m: "\<And>code body.
      (code = 401 \<longrightarrow> fst (Walk (sim_server code body) ?s) = (None, Some ErrAuthentication))
     \<and> (code = 402 \<longrightarrow> fst (Walk (sim_server code body) ?s) = (None, Some ErrInsufficientCredits))
     \<and> (code = 429 \<longrightarrow> fst (Walk (sim_server code body) ?s) = (None, Some ErrRateLimit))
     \<and> (code \<notin> {200, 401, 402, 429} \<longrightarrow>
          fst (Walk (sim_server code body) ?s) =
            (None, Some (ErrorString (''API error: status '' @ show_int code))))
     \<and> (code = 200 \<longrightarrow>
          (\<forall>w. json_decode (sim_server code body) body = Inr w \<longrightarrow>
                fst (Walk (sim_server code body) ?s) = (Some w, None))
          \<and> (\<forall>err. json_decode (sim_server code body) body = Inl err \<longrightarrow>
                fst (Walk (sim_server code body) ?s) =
                  (None, Some (WrapError (''failed to decode response: '' @ Error err) err))))"
  proof -
    fix code body
    obtain r where r: "r \<in> set (requests_of (sim_server code body) ?s)"
      "round_trip (sim_server code body) (httpClient (client ?s)) r =
          Inr \<lparr>StatusCode = code, RespBody = body\<rparr>"
      using run by blast
    show "?thesis code body"
      using Walk_status_mapping [OF r] by simp
  qed
  have d1: "json_decode (sim_server 200 ''{}'') ''{}'' = Inr \<lparr>Paths = NilSlice, LatencyUS = 0, CreditsUsed = 0\<rparr>"
    by (simp add: sim_server_def)
  have d2: "json_decode (sim_server 200 []) [] = Inl (LibError ''EOF'' [])"
    by (simp add: sim_server_def)
  show ?thesis
    using m [of 401 "[]"] m [of 402 "[]"] m [of 429 "[]"] m [of 500 "[]"]
      m [of 200 "''{}''"] m [of 200 "[]"] d1 d2
    by (simp add: show_int_500)
qed

subsection \<open>The status code in the generic error\<close>

lemma digit_char_cases:
  assumes "d < 10"
  shows "d = 0 \<or> d = 1 \<or> d = 2 \<or> d = 3 \<or> d = 4 \<or> d = 5 \<or> d = 6 \<or> d = 7 \<or> d = 8 \<or> d = (9::nat)"
  using assms by arith

lemma digit_val_digit_char: "d < 10 \<Longrightarrow> digit_val (digit_char d) = d"
  using digit_char_cases [of d] by (auto simp add: digit_val_def digit_char_def)

lemma digit_char_not_minus: "d < 10 \<Longrightarrow> digit_char d \<noteq> CHR ''-''"
  using digit_char_cases [of d] by (auto simp add: digit_char_def)

lemma read_nat_snoc: "read_nat (ds @ [c]) = 10 * read_nat ds + digit_val c"
  by (simp add: read_nat_def)

lemma read_nat_show_nat: "read_nat (show_nat n) = n"
proof (induction n rule: show_nat.induct)
  case (1 n)
  show ?case
  proof (cases "n < 10")
    case True
    then show ?thesis
      by (subst show_nat.simps) (simp add: read_nat_def digit_val_digit_char)
  next
    case False
    then have "read_nat (show_nat (n div 10)) = n div 10"
      using "1.IH" by simp
    with False show ?thesis
      by (subst show_nat.simps) (simp add: read_nat_snoc digit_val_digit_char)
  qed
qed

lemma show_nat_head: "\<exists>c cs. show_nat n = c # cs \<and> c \<noteq> CHR ''-''"
proof (induction n rule: show_nat.induct)
  case (1 n)
  show ?case
  proof (cases "n < 10")
    case True
    then show ?thesis
      by (subst show_nat.simps) (simp add: digit_char_not_minus)
  next
    case False
    then obtain c cs where "show_nat (n div 10) = c # cs" "c \<noteq> CHR ''-''"
      using "1.IH" by blast
    with False show ?thesis
      by (subst show_nat.simps) simp
  qed
qed

lemma read_int_show_int: "read_int (show_int i) = i"
proof (cases "i < 0")
  case True
  then show ?thesis
    by (simp add: show_int_def read_int_def read_nat_show_nat)
next
  case False
  obtain c cs where cs: "show_nat (nat i) = c # cs" "c \<noteq> CHR ''-''"
    using show_nat_head by blast
  have "read_nat (c # cs) = nat i"
    using read_nat_show_nat [of "nat i"] cs by simp
  with False cs show ?thesis
    by (simp add: show_int_def read_int_def)
qed

lemma Walk_sim_server:
  assumes "len ps \<noteq> 0"
  shows "fst (Walk (sim_server code body) (sample_store ps d l)) =
     map_response (sim_server code body) \<lparr>StatusCode = code, RespBody = body\<rparr>"
proof -
  obtain r where r: "requests_of (sim_server code body) (sample_store ps d l) = [r]"
    using sim_server_requests [OF assms] by blast
  have "round_trip (sim_server code body) (httpClient (client (sample_store ps d l))) r =
      Inr \<lparr>StatusCode = code, RespBody = body\<rparr>"
    by (simp add: sim_server_def)
  moreover have "r \<in> set (requests_of (sim_server code body) (sample_store ps d l))"
    using r by simp
  ultimately show ?thesis
    by (rule fst_Walk_response [rotated])
qed

text \<open>
  C6 as stated fails: against a server answering 500, the error \<^verbatim>\<open>Walk\<close> returns has no
  numeric field holding 500. It is the errorString made by \<^verbatim>\<open>fmt.Errorf\<close>.
\<close>

theorem APIError_code_is_data_counterexample:
  "\<not> carries_status (snd (fst (Walk (sim_server 500 []) (sample_store (Slice [''dharma'']) 0 0)))) 500"
proof -
  have "fst (Walk (sim_server 500 []) (sample_store (Slice [''dharma'']) 0 0)) =
      (None, Some (ErrorString (''API error: status '' @ show_int 500)))"
    by (simp add: Walk_sim_server map_response_def)
  then show ?thesis
    by (simp add: carries_status_def)
qed

text \<open>
  C6, amended. For every status other than 200, 401, 402 and 429, the error \<^verbatim>\<open>Walk\<close>
  returns is an errorString with no numeric field; the status code is in its message
  only, which is \<^verbatim>\<open>API error: status\<close> and a space followed by the code in decimal, and
  parsing the message after its first 18 bytes gives the code back.
\<close>

theorem APIError_code_in_message:
  assumes "r \<in> set (requests_of e s)"
    and "round_trip e (httpClient (client s)) r = Inr resp"
    and "StatusCode resp \<notin> {200, 401, 402, 429}"
  shows "fst (Walk e s) =
       (None, Some (ErrorString (''API error: status '' @ show_int (StatusCode resp))))
     \<and> \<not> carries_status (snd (fst (Walk e s))) (StatusCode resp)
     \<and> (\<exists>err. snd (fst (Walk e s)) = Some err
          \<and> take 18 (Error err) = ''API error: status ''
          \<and> read_int (drop 18 (Error err)) = StatusCode resp)"
proof -
  have "fst (Walk e s) = map_response e resp"
    using assms(1,2) by (rule fst_Walk_response)
  with assms(3) have
    "fst (Walk e s) = (None, Some (ErrorString (''API error: status '' @ show_int (StatusCode resp))))"
    by (simp add: map_response_def)
  then show ?thesis
    by (simp add: carries_status_def read_int_show_int)
qed

text \<open>C6, amended, against a server answering 500.\<close>

theorem APIError_code_in_message_witness:
  "fst (Walk (sim_server 500 []) (sample_store (Slice [''dharma'']) 0 0)) =
       (None, Some (ErrorString ''API error: status 500''))
   \<and> \<not> carries_status (snd (fst (Walk (sim_server 500 []) (sample_store (Slice [''dharma'']) 0 0)))) 500
   \<and> read_int (drop 18 ''API error: status 500'') = 500"
proof -
  let ?s = "sample_store (Slice [''dharma'']) 0 0"
  obtain r where r: "requests_of (sim_server 500 []) ?s = [r]"
    using sim_server_requests [of "Slice [''dharma'']" 500 "[]" 0 0] by auto
  have 1: "r \<in> set (requests_of (sim_server 500 []) ?s)"
    using r by simp
  have 2: "round_trip (sim_server 500 []) (httpClient (client ?s)) r =
      Inr \<lparr>StatusCode = 500, RespBody = []\<rparr>"
    by (simp add: sim_server_def)
  have 3: "StatusCode \<lparr>StatusCode = 500, RespBody = []\<rparr> \<notin> {200, 401, 402, 429}"
    by simp
  show ?thesis
    using APIError_code_in_message [OF 1 2 3] by (auto simp add: show_int_500)
qed

subsection \<open>The request body\<close>

lemma json_Marshal_members:
  "json_Marshal r = Inr b \<Longrightarrow>
     (\<exists>ms. b = JObject ms)
     \<and> json_field ''phonemes'' b =
         Some (case Phonemes r of NilSlice \<Rightarrow> JNull | Slice xs \<Rightarrow> JArray (map JString xs))
     \<and> json_field ''pod'' b = (if Pod r = [] then None else Some (JString (Pod r)))"
  by (auto simp add: json_Marshal_def)

text \<open>
  C7. For every request that passes validation, the marshalled body is a JSON object in
  which \<^verbatim>\<open>phonemes\<close> is present (the array of the phonemes), \<^verbatim>\<open>pod\<close> is absent exactly
  when Pod is empty, \<^verbatim>\<open>depth\<close> is absent exactly when Depth is 0 and \<^verbatim>\<open>limit\<close> is absent
  exactly when Limit is 0, each member present carrying the field's value. The body of
  every request \<^verbatim>\<open>Walk\<close> hands to the transport is the marshalled form of the request
  after defaulting, so in it \<^verbatim>\<open>depth\<close> and \<^verbatim>\<open>limit\<close> are always present.
\<close>

theorem request_body_members:
  "(len (Phonemes r) \<noteq> 0 \<longrightarrow>
      (case json_Marshal r of
         Inl err \<Rightarrow> False
       | Inr b \<Rightarrow>
           (\<exists>ms. b = JObject ms)
           \<and> (\<exists>xs. Phonemes r = Slice xs \<and> json_field ''phonemes'' b = Some (JArray (map JString xs)))
           \<and> (json_field ''pod'' b = None \<longleftrightarrow> Pod r = [])
           \<and> (Pod r \<noteq> [] \<longrightarrow> json_field ''pod'' b = Some (JString (Pod r)))
           \<and> (json_field ''depth'' b = None \<longleftrightarrow> Depth r = 0)
           \<and> (Depth r \<noteq> 0 \<longrightarrow> json_field ''depth'' b = Some (JInt (Depth r)))
           \<and> (json_field ''limit'' b = None \<longleftrightarrow> Limit r = 0)
           \<and> (Limit r \<noteq> 0 \<longrightarrow> json_field ''limit'' b = Some (JInt (Limit r)))))
   \<and> (\<forall>q \<in> set (requests_of e s).
         json_Marshal (request (snd (Walk e s))) = Inr (Body q)
         \<and> len (Phonemes (request (snd (Walk e s)))) \<noteq> 0
         \<and> json_field ''depth'' (Body q) \<noteq> None
         \<and> json_field ''limit'' (Body q) \<noteq> None)"
proof -
  have marshal: "len (Phonemes r) \<noteq> 0 \<longrightarrow>
      (case json_Marshal r of
         Inl err \<Rightarrow> False
       | Inr b \<Rightarrow>
           (\<exists>ms. b = JObject ms)
           \<and> (\<exists>xs. Phonemes r = Slice xs \<and> json_field ''phonemes'' b = Some (JArray (map JString xs)))
           \<and> (json_field ''pod'' b = None \<longleftrightarrow> Pod r = [])
           \<and> (Pod r \<noteq> [] \<longrightarrow> json_field ''pod'' b = Some (JString (Pod r)))
           \<and> (json_field ''depth'' b = None \<longleftrightarrow> Depth r = 0)
           \<and> (Depth r \<noteq> 0 \<longrightarrow> json_field ''depth'' b = Some (JInt (Depth r)))
           \<and> (json_field ''limit'' b = None \<longleftrightarrow> Limit r = 0)
           \<and> (Limit r \<noteq> 0 \<longrightarrow> json_field ''limit'' b = Some (JInt (Limit r))))"
  proof
    assume ne: "len (Phonemes r) \<noteq> 0"
    obtain b where b: "json_Marshal r = Inr b"
      using json_Marshal_total by blast
    obtain xs where xs: "Phonemes r = Slice xs"
      using ne by (cases "Phonemes r") simp_all
    show "case json_Marshal r of
         Inl err \<Rightarrow> False
       | Inr b \<Rightarrow>
           (\<exists>ms. b = JObject ms)
           \<and> (\<exists>xs. Phonemes r = Slice xs \<and> json_field ''phonemes'' b = Some (JArray (map JString xs)))
           \<and> (json_field ''pod'' b = None \<longleftrightarrow> Pod r = [])
           \<and> (Pod r \<noteq> [] \<longrightarrow> json_field ''pod'' b = Some (JString (Pod r)))
           \<and> (json_field ''depth'' b = None \<longleftrightarrow> Depth r = 0)
           \<and> (Depth r \<noteq> 0 \<longrightarrow> json_field ''depth'' b = Some (JInt (Depth r)))
           \<and> (json_field ''limit'' b = None \<longleftrightarrow> Limit r = 0)
           \<and> (Limit r \<noteq> 0 \<longrightarrow> json_field ''limit'' b = Some (JInt (Limit r)))"
      using json_Marshal_members [OF b] json_Marshal_depth_limit [OF b] xs
      by (simp add: b)
  qed
  have sent: "\<forall>q \<in> set (requests_of e s).
         json_Marshal (request (snd (Walk e s))) = Inr (Body q)
         \<and> len (Phonemes (request (snd (Walk e s)))) \<noteq> 0
         \<and> json_field ''depth'' (Body q) \<noteq> None
         \<and> json_field ''limit'' (Body q) \<noteq> None"
  proof
    fix q assume q: "q \<in> set (requests_of e s)"
    obtain b where b: "json_Marshal (request (set_defaults s)) = Inr b"
      using json_Marshal_total by blast
    note facts = in_requests_of [OF q b]
    have req: "request (snd (Walk e s)) = request (set_defaults s)"
      using facts(1) by (simp add: snd_Walk_fields)
    have body: "Body q = b"
      using facts(3) by (simp add: Body_walk_httpReq)
    show "json_Marshal (request (snd (Walk e s))) = Inr (Body q)
         \<and> len (Phonemes (request (snd (Walk e s)))) \<noteq> 0
         \<and> json_field ''depth'' (Body q) \<noteq> None
         \<and> json_field ''limit'' (Body q) \<noteq> None"
      using json_Marshal_depth_limit [OF b] facts(1) b
      by (simp add: req body request_set_defaults)
  qed
  from marshal sent show ?thesis by blast
qed

text \<open>C7 at a request with a pod, Depth 0 and Limit 7, and at a call of \<^verbatim>\<open>Walk\<close>.\<close>

theorem request_body_members_witness:
  "(case json_Marshal \<lparr>Phonemes = Slice [''dharma''], Pod = ''p1'', Depth = 0, Limit = 7\<rparr> of
      Inl err \<Rightarrow> False
    | Inr b \<Rightarrow>
        json_field ''phonemes'' b = Some (JArray [JString ''dharma''])
        \<and> json_field ''pod'' b = Some (JString ''p1'')
        \<and> json_field ''depth'' b = None
        \<and> json_field ''limit'' b = Some (JInt 7))
   \<and> map (\<lambda>q. (json_field ''depth'' (Body q) \<noteq> None, json_field ''limit'' (Body q) \<noteq> None))
        (requests_of (sim_server 200 ''{}'') (sample_store (Slice [''dharma'']) 0 0)) = [(True, True)]"
proof -
  obtain q where q: "requests_of (sim_server 200 ''{}'') (sample_store (Slice [''dharma'']) 0 0) = [q]"
    using sim_server_requests [of "Slice [''dharma'']" 200 "''{}''" 0 0] by auto
  show ?thesis
    using request_body_members
      [of "\<lparr>Phonemes = Slice [''dharma''], Pod = ''p1'', Depth = 0, Limit = 7\<rparr>"
          "sim_server 200 ''{}''" "sample_store (Slice [''dharma'']) 0 0"] q
    by (auto split: sum.splits)
qed

subsection \<open>What a call changes\<close>

lemma net_Walk_grows: "\<exists>evs. net (snd (Walk e s)) = net s @ evs"
proof -
  obtain b where b: "json_Marshal (request (set_defaults s)) = Inr b"
    using json_Marshal_total by blast
  show ?thesis
  proof (cases "len (Phonemes (request s)) = 0")
    case True
    then show ?thesis by (simp add: Walk_invalid)
  next
    case ne: False
    show ?thesis
    proof (cases "url_error e (baseURL (client s) @ ''/v1/walk'')")
      case (Some err)
      with ne b show ?thesis by (simp add: Walk_url_error net_set_defaults)
    next
      case None
      show ?thesis
      proof (cases "round_trip e (httpClient (client s)) (walk_httpReq s b)")
        case (Inl err)
        with ne None b show ?thesis by (simp add: Walk_transport_error)
      next
        case (Inr resp)
        with ne None b show ?thesis by (simp add: Walk_response)
      qed
    qed
  qed
qed

text \<open>
  C8. For every call of \<^verbatim>\<open>Walk\<close>, the client is what it was (key, address and HTTP
  client), the request's Phonemes and Pod are what they were, and Depth and Limit differ
  from before only by the defaulting: 3 and 100 in place of 0 once validation has
  passed. The events already recorded stay; the call only adds its own.
\<close>

theorem Walk_frame:
  "client (snd (Walk e s)) = client s
   \<and> Phonemes (request (snd (Walk e s))) = Phonemes (request s)
   \<and> Pod (request (snd (Walk e s))) = Pod (request s)
   \<and> Depth (request (snd (Walk e s))) =
       (if len (Phonemes (request s)) \<noteq> 0 \<and> Depth (request s) = 0 then 3 else Depth (request s))
   \<and> Limit (request (snd (Walk e s))) =
       (if len (Phonemes (request s)) \<noteq> 0 \<and> Limit (request s) = 0 then 100 else Limit (request s))
   \<and> (\<exists>evs. net (snd (Walk e s)) = net s @ evs)"
  using net_Walk_grows [of e s]
  by (simp add: snd_Walk_fields request_set_defaults)

text \<open>C8 at a request with Depth 0 and Limit 10.\<close>

theorem Walk_frame_witness:
  "client (snd (Walk (sim_server 200 ''{}'') (sample_store (Slice [''dharma'']) 0 10))) =
     \<lparr>apiKey = ''vak_live_1'', baseURL = ''https://api.mantr.net'',
        httpClient = \<lparr>Timeout = 30 * Second\<rparr>\<rparr>
   \<and> request (snd (Walk (sim_server 200 ''{}'') (sample_store (Slice [''dharma'']) 0 10))) =
     \<lparr>Phonemes = Slice [''dharma''], Pod = [], Depth = 3, Limit = 10\<rparr>"
  using Walk_frame [of "sim_server 200 ''{}''" "sample_store (Slice [''dharma'']) 0 10"]
  by (simp add: sample_store_def WalkRequest.equality)

lemma set_defaults_idem: "set_defaults (set_defaults s) = set_defaults s"
  by (simp add: set_defaults_def Let_def)

lemma walk_httpReq_cong:
  "client s' = client s \<Longrightarrow> walk_httpReq s' b = walk_httpReq s b"
  by (simp add: walk_httpReq_def)

text \<open>
  C9. Defaulting twice is defaulting once. For every request with phonemes, a second
  call of \<^verbatim>\<open>Walk\<close> on the store the first call left (whatever the server answers the
  second time, the addresses parsing as before) leaves the request as the first call
  left it and hands the transport the same request, with the same body.
\<close>

theorem Walk_defaulting_idempotent:
  "set_defaults (set_defaults s) = set_defaults s
   \<and> (len (Phonemes (request s)) \<noteq> 0 \<longrightarrow> url_error e2 = url_error e1 \<longrightarrow>
        request (snd (Walk e2 (snd (Walk e1 s)))) = request (snd (Walk e1 s))
        \<and> requests_of e2 (snd (Walk e1 s)) = requests_of e1 s
        \<and> wire_payload e2 (snd (Walk e1 s)) = wire_payload e1 s)"
proof -
  have second: "request (snd (Walk e2 (snd (Walk e1 s)))) = request (snd (Walk e1 s))
        \<and> requests_of e2 (snd (Walk e1 s)) = requests_of e1 s
        \<and> wire_payload e2 (snd (Walk e1 s)) = wire_payload e1 s"
    if ne: "len (Phonemes (request s)) \<noteq> 0" and url: "url_error e2 = url_error e1"
  proof -
    let ?s' = "snd (Walk e1 s)"
    have req': "request ?s' = request (set_defaults s)"
      using ne by (simp add: snd_Walk_fields)
    have cl': "client ?s' = client s"
      by (simp add: snd_Walk_fields)
    have ne': "len (Phonemes (request ?s')) \<noteq> 0"
      using ne by (simp add: req' request_set_defaults)
    have again: "request (set_defaults ?s') = request (set_defaults s)"
      by (simp add: request_set_defaults req')
    obtain b where b: "json_Marshal (request (set_defaults s)) = Inr b"
      using json_Marshal_total by blast
    have b': "json_Marshal (request (set_defaults ?s')) = Inr b"
      using b by (simp add: again)
    have same_req: "walk_httpReq ?s' b = walk_httpReq s b"
      using cl' by (rule walk_httpReq_cong)
    have reqs: "requests_of e2 ?s' = requests_of e1 s"
      using ne ne' url
      by (simp add: requests_of_cases [OF b] requests_of_cases [OF b'] cl' same_req)
    have "request (snd (Walk e2 ?s')) =
        (if len (Phonemes (request ?s')) = 0 then request ?s' else request (set_defaults ?s'))"
      by (rule snd_Walk_fields(2))
    with ne' have "request (snd (Walk e2 ?s')) = request (set_defaults ?s')"
      by (simp only: if_False)
    then have "request (snd (Walk e2 ?s')) = request ?s'"
      by (simp only: again req')
    with reqs show ?thesis
      by (simp add: wire_payload_def)
  qed
  then show ?thesis
    by (simp add: set_defaults_idem)
qed

text \<open>C9 at a first call answered 200 and a second call answered 500.\<close>

theorem Walk_defaulting_idempotent_witness:
  "len (Phonemes (request (sample_store (Slice [''dharma'']) 0 0))) \<noteq> 0
   \<and> url_error (sim_server 500 []) = url_error (sim_server 200 ''{}'')
   \<and> wire_payload (sim_server 500 []) (snd (Walk (sim_server 200 ''{}'') (sample_store (Slice [''dharma'']) 0 0))) =
       wire_payload (sim_server 200 ''{}'') (sample_store (Slice [''dharma'']) 0 0)
   \<and> request (snd (Walk (sim_server 500 [])
        (snd (Walk (sim_server 200 ''{}'') (sample_store (Slice [''dharma'']) 0 0))))) =
       request (snd (Walk (sim_server 200 ''{}'') (sample_store (Slice [''dharma'']) 0 0)))"
  using Walk_defaulting_idempotent
    [of "sample_store (Slice [''dharma'']) 0 0" "sim_server 500 []" "sim_server 200 ''{}''"]
  by (simp add: sample_store_def sim_server_def)

subsection \<open>The key after the prefix\<close>

lemma apply_options_apiKey:
  assumes "\<forall>opt \<in> set options. \<forall>c io. apiKey (fst (opt (c, io))) = apiKey c"
  shows "apiKey (fst (apply_options options (c, io))) = apiKey c"
  using assms
proof (induction options arbitrary: c io)
  case Nil
  show ?case by simp
next
  case (Cons opt options)
  obtain c' io' where step: "opt (c, io) = (c', io')"
    by (cases "opt (c, io)") blast
  have "apiKey c' = apiKey c"
    using Cons.prems step by (metis fst_conv list.set_intros(1))
  moreover have "apiKey (fst (apply_options options (c', io'))) = apiKey c'"
    using Cons.prems by (intro Cons.IH) simp
  ultimately show ?case
    by (simp add: step)
qed

lemma WithBaseURL_apiKey: "apiKey (fst (WithBaseURL url (c, io))) = apiKey c"
  by (simp add: WithBaseURL_def)

lemma NewClient_accepted:
  "NewClient (''vak_'' @ suffix) options io =
     ((Some (fst (apply_options options
          (\<lparr>apiKey = ''vak_'' @ suffix, baseURL = ''https://api.mantr.net'',
             httpClient = \<lparr>Timeout = 30 * Second\<rparr>\<rparr>, io))), None),
      snd (apply_options options
          (\<lparr>apiKey = ''vak_'' @ suffix, baseURL = ''https://api.mantr.net'',
             httpClient = \<lparr>Timeout = 30 * Second\<rparr>\<rparr>, io)))"
  by (simp add: NewClient_def Let_def split: prod.splits)

lemma Authorization_walk_httpReq:
  "Header (walk_httpReq s b) ''Authorization'' = Some [''Bearer '' @ apiKey (client s)]"
  by (simp add: walk_httpReq_def Header_Set_def)

lemma requests_of_Authorization:
  assumes "q \<in> set (requests_of e s)"
  shows "Header q ''Authorization'' = Some [''Bearer '' @ apiKey (client s)]"
proof -
  obtain b where b: "json_Marshal (request (set_defaults s)) = Inr b"
    using json_Marshal_total by blast
  have "q = walk_httpReq s b"
    using in_requests_of(3) [OF assms b] .
  then show ?thesis
    by (simp only: Authorization_walk_httpReq)
qed

text \<open>
  C10. The check of the key looks at the prefix only: for every suffix, the empty one
  included, \<^verbatim>\<open>NewClient\<close> accepts \<^verbatim>\<open>vak_\<close> followed by the suffix and returns a client.
  When no option assigns the key, the client holds the key as given, and every request
  \<^verbatim>\<open>Walk\<close> sends for a client has the header \<^verbatim>\<open>Authorization\<close> set to \<^verbatim>\<open>Bearer\<close>, a space
  and the client's key. The 4-byte key \<^verbatim>\<open>vak_\<close> alone, with no options, gives the
  client with that key and the defaults.
\<close>

theorem NewClient_prefix_only:
  "snd (fst (NewClient (''vak_'' @ suffix) options io)) = None
   \<and> (\<exists>c. fst (fst (NewClient (''vak_'' @ suffix) options io)) = Some c
        \<and> ((\<forall>opt \<in> set options. \<forall>c io. apiKey (fst (opt (c, io))) = apiKey c) \<longrightarrow>
              apiKey c = ''vak_'' @ suffix)
        \<and> (\<forall>e s. client s = c \<longrightarrow>
              (\<forall>q \<in> set (requests_of e s).
                 Header q ''Authorization'' = Some [''Bearer '' @ apiKey c])))
   \<and> NewClient ''vak_'' [] io =
        ((Some \<lparr>apiKey = ''vak_'', baseURL = ''https://api.mantr.net'',
                 httpClient = \<lparr>Timeout = 30 * Second\<rparr>\<rparr>, None), io)"
proof -
  let ?init = "\<lparr>apiKey = ''vak_'' @ suffix, baseURL = ''https://api.mantr.net'',
             httpClient = \<lparr>Timeout = 30 * Second\<rparr>\<rparr>"
  let ?cl = "fst (apply_options options (?init, io))"
  have res: "fst (NewClient (''vak_'' @ suffix) options io) = (Some ?cl, None)"
    by (simp only: NewClient_accepted fst_conv)
  have key: "(\<forall>opt \<in> set options. \<forall>c io. apiKey (fst (opt (c, io))) = apiKey c) \<longrightarrow>
      apiKey ?cl = ''vak_'' @ suffix"
    using apply_options_apiKey [of options ?init io] by simp
  have hdr: "\<forall>e s. client s = ?cl \<longrightarrow>
      (\<forall>q \<in> set (requests_of e s). Header q ''Authorization'' = Some [''Bearer '' @ apiKey ?cl])"
  proof (intro allI impI ballI)
    fix e s q
    assume "client s = ?cl" and "q \<in> set (requests_of e s)"
    then show "Header q ''Authorization'' = Some [''Bearer '' @ apiKey ?cl]"
      using requests_of_Authorization [of q e s] by simp
  qed
  have bare: "NewClient ''vak_'' [] io =
        ((Some \<lparr>apiKey = ''vak_'', baseURL = ''https://api.mantr.net'',
                 httpClient = \<lparr>Timeout = 30 * Second\<rparr>\<rparr>, None), io)"
    using NewClient_accepted [of "[]" "[]" io] by simp
  from res key hdr bare show ?thesis
    by simp
qed

text \<open>C10 at the key \<^verbatim>\<open>vak_\<close>, with an option that sets the address.\<close>

theorem NewClient_prefix_only_witness:
  "snd (fst (NewClient ''vak_'' [WithBaseURL ''http://localhost:8080''] [])) = None
   \<and> map_option apiKey (fst (fst (NewClient ''vak_'' [WithBaseURL ''http://localhost:8080''] []))) =
        Some ''vak_''
   \<and> map (\<lambda>q. Header q ''Authorization'')
        (requests_of (sim_server 200 ''{}'')
           \<lparr>client = the (fst (fst (NewClient ''vak_'' [WithBaseURL ''http://localhost:8080''] []))),
              request = \<lparr>Phonemes = Slice [''dharma''], Pod = [], Depth = 0, Limit = 0\<rparr>,
              net = []\<rparr>) = [Some [''Bearer vak_'']]"
proof -
  let ?opts = "[WithBaseURL ''http://localhost:8080'']"
  let ?r = "\<lparr>Phonemes = Slice [''dharma''], Pod = [], Depth = 0, Limit = 0\<rparr>"
  have opts: "\<forall>opt \<in> set ?opts. \<forall>c io. apiKey (fst (opt (c, io))) = apiKey c"
    by (simp add: WithBaseURL_apiKey)
  from NewClient_prefix_only [of "[]" ?opts "[]"]
  obtain c where c: "snd (fst (NewClient ''vak_'' ?opts [])) = None"
      "fst (fst (NewClient ''vak_'' ?opts [])) = Some c"
      "(\<forall>opt \<in> set ?opts. \<forall>c io. apiKey (fst (opt (c, io))) = apiKey c) \<longrightarrow> apiKey c = ''vak_''"
      "\<forall>e s. client s = c \<longrightarrow>
         (\<forall>q \<in> set (requests_of e s). Header q ''Authorization'' = Some [''Bearer '' @ apiKey c])"
    by auto
  have k: "apiKey c = ''vak_''"
    using c(3) opts by blast
  let ?s = "\<lparr>client = c, request = ?r, net = []\<rparr>"
  obtain b where b: "json_Marshal (request (set_defaults ?s)) = Inr b"
    using json_Marshal_total by blast
  have reqs: "requests_of (sim_server 200 ''{}'') ?s = [walk_httpReq ?s b]"
    by (simp add: requests_of_cases [OF b] sim_server_def)
  have "client ?s = c"
    by simp
  moreover have "walk_httpReq ?s b \<in> set (requests_of (sim_server 200 ''{}'') ?s)"
    using reqs by simp
  ultimately have "Header (walk_httpReq ?s b) ''Authorization'' = Some [''Bearer '' @ apiKey c]"
    by (rule c(4) [rule_format])
  with c(1,2) k reqs show ?thesis
    by simp
qed

end
